theory Spec2Isabelle
  imports Main
begin

section \<open>Python values, exceptions and ordered dictionaries\<close>

text \<open>
  The algorithm configuration (ACON) is a Python dict read from a configuration document.
  Its values are the values such a document can hold. Dictionaries of the configuration
  are keyed by strings and kept as association lists in insertion order.
\<close>

datatype pyval = PyNone | PyBool bool | PyInt int | PyStr string
  | PyList "pyval list" | PyDict "(string \<times> pyval) list"

text \<open>
  Exceptions as values. \<open>KeyError k\<close> is what a dictionary subscript raises for a missing
  key \<open>k\<close>; \<open>TypeError\<close> and \<open>AttributeError\<close> are what Python raises when a value that is
  not a mapping is iterated, subscripted or asked for \<open>get\<close>; \<open>Raised e\<close> is an exception
  \<open>e\<close> that code outside \<open>data_loader.py\<close> raised (a constructor, a reader, a writer).
\<close>

datatype ('k, 'e) exn = KeyError 'k | TypeError | AttributeError | Raised 'e

text \<open>Sequencing of two computations that may raise: the first exception wins.\<close>

definition exn_bind :: "'e + 'a \<Rightarrow> ('a \<Rightarrow> 'e + 'b) \<Rightarrow> 'e + 'b" where
  "exn_bind m f = (case m of Inl e \<Rightarrow> Inl e | Inr x \<Rightarrow> f x)"

text \<open>
  \<open>collections.OrderedDict\<close>: an association list in insertion order. \<open>d[k]\<close> raises
  \<open>KeyError\<close> for a missing key; \<open>d[k] = v\<close> replaces the value of a present key where it
  stands and appends a new key at the end; \<open>d.update(other)\<close> assigns the items of
  \<open>other\<close> one after the other. Keys are compared by equality: they stand for the
  hashable identifiers of the specifications.
\<close>

definition od_getitem :: "('k \<times> 'v) list \<Rightarrow> 'k \<Rightarrow> ('k, 'e) exn + 'v" where
  "od_getitem d k = (case map_of d k of None \<Rightarrow> Inl (KeyError k) | Some v \<Rightarrow> Inr v)"

fun od_setitem :: "('k \<times> 'v) list \<Rightarrow> 'k \<Rightarrow> 'v \<Rightarrow> ('k \<times> 'v) list" where
  "od_setitem [] k v = [(k, v)]"
| "od_setitem ((k', v') # d) k v =
     (if k' = k then (k', v) # d else (k', v') # od_setitem d k v)"

fun od_update :: "('k \<times> 'v) list \<Rightarrow> ('k \<times> 'v) list \<Rightarrow> ('k \<times> 'v) list" where
  "od_update d [] = d"
| "od_update d ((k, v) # other) = od_update (od_setitem d k v) other"

text \<open>
  Truth value of what a writer returns (an optional ordered dictionary): \<open>None\<close> and the
  empty dictionary are false, a dictionary with an item is true.
\<close>

fun truthy :: "('k \<times> 'v) list option \<Rightarrow> bool" where
  "truthy None = False"
| "truthy (Some []) = False"
| "truthy (Some (item # items)) = True"

section \<open>Specifications\<close>

text \<open>
  Modelled from the spec: the classes \<open>InputSpec\<close> and \<open>OutputSpec\<close> of
  \<open>lakehouse_engine.core.definitions\<close> are not part of the source. An input
  specification has the identifier \<open>spec_id\<close> and backend-specific fields that the
  loader passes through unread (\<open>options\<close>, whatever the constructor keeps of
  them); an output specification has exactly the seven fields that
  \<open>_get_output_specs\<close> passes to its constructor. A field holds the value the
  configuration gave, whatever it is.
\<close>

record ('v, 'x) InputSpec =
  spec_id :: 'v
  options :: 'x

record 'v OutputSpec =
  spec_id :: 'v
  input_id :: 'v
  write_type :: 'v
  data_format :: 'v
  db_table :: 'v
  location :: 'v
  partitions :: 'v

text \<open>
  The attributes of a \<open>DataLoader\<close> object that its methods read. The base class
  \<open>Algorithm\<close> is not part of the source; its constructor is taken to store the
  configuration as the attribute \<open>acon\<close>, which is where \<open>_get_input_specs\<close> and
  \<open>_get_output_specs\<close> read it from.
\<close>

record ('v, 'x) DataLoader =
  acon :: "(string \<times> pyval) list"
  input_specs :: "('v, 'x) InputSpec list"
  output_specs :: "'v OutputSpec list"

section \<open>Construction: the specifications of an ACON\<close>

text \<open>Iteration over a value (\<open>for spec in v\<close>): a string yields its characters, a
  dict its keys, and a value that is not iterable raises \<open>TypeError\<close>.\<close>

fun py_iter :: "pyval \<Rightarrow> (string, 'e) exn + pyval list" where
  "py_iter (PyList xs) = Inr xs"
| "py_iter (PyStr s) = Inr (map (\<lambda>c. PyStr [c]) s)"
| "py_iter (PyDict d) = Inr (map (\<lambda>kv. PyStr (fst kv)) d)"
| "py_iter PyNone = Inl TypeError"
| "py_iter (PyBool b) = Inl TypeError"
| "py_iter (PyInt i) = Inl TypeError"

text \<open>The subscript \<open>spec["key"]\<close> with a string key: only a dict has string keys.\<close>

fun py_subscript :: "pyval \<Rightarrow> string \<Rightarrow> (string, 'e) exn + pyval" where
  "py_subscript (PyDict d) k = od_getitem d k"
| "py_subscript PyNone k = Inl TypeError"
| "py_subscript (PyBool b) k = Inl TypeError"
| "py_subscript (PyInt i) k = Inl TypeError"
| "py_subscript (PyStr s) k = Inl TypeError"
| "py_subscript (PyList xs) k = Inl TypeError"

text \<open>\<open>spec.get("key", default)\<close>: only a dict has the method.\<close>

fun py_get :: "pyval \<Rightarrow> string \<Rightarrow> pyval \<Rightarrow> (string, 'e) exn + pyval" where
  "py_get (PyDict d) k dflt = Inr (case map_of d k of None \<Rightarrow> dflt | Some v \<Rightarrow> v)"
| "py_get PyNone k dflt = Inl AttributeError"
| "py_get (PyBool b) k dflt = Inl AttributeError"
| "py_get (PyInt i) k dflt = Inl AttributeError"
| "py_get (PyStr s) k dflt = Inl AttributeError"
| "py_get (PyList xs) k dflt = Inl AttributeError"

text \<open>A list comprehension \<open>[f(x) for x in xs]\<close>: the elements are built from left to
  right, and the first exception ends the comprehension.\<close>

fun list_comp :: "('a \<Rightarrow> 'e + 'b) \<Rightarrow> 'a list \<Rightarrow> 'e + 'b list" where
  "list_comp f [] = Inr []"
| "list_comp f (x # xs) =
     exn_bind (f x) (\<lambda>y. exn_bind (list_comp f xs) (\<lambda>ys. Inr (y # ys)))"

text \<open>
  \<open>InputSpec(**spec)\<close>: the keyword expansion needs a mapping. The constructor itself is
  outside the source and is the parameter \<open>InputSpec_init\<close>; it may raise.
\<close>

fun kwargs_call :: "((string \<times> pyval) list \<Rightarrow> (string, 'e) exn + 'a) \<Rightarrow> pyval
    \<Rightarrow> (string, 'e) exn + 'a" where
  "kwargs_call ctor (PyDict kw) = ctor kw"
| "kwargs_call ctor PyNone = Inl TypeError"
| "kwargs_call ctor (PyBool b) = Inl TypeError"
| "kwargs_call ctor (PyInt i) = Inl TypeError"
| "kwargs_call ctor (PyStr s) = Inl TypeError"
| "kwargs_call ctor (PyList xs) = Inl TypeError"

definition get_input_specs ::
  "((string \<times> pyval) list \<Rightarrow> (string, 'e) exn + ('v, 'x) InputSpec)
    \<Rightarrow> (string \<times> pyval) list \<Rightarrow> (string, 'e) exn + ('v, 'x) InputSpec list" where
  "get_input_specs InputSpec_init acn =
     exn_bind (od_getitem acn ''input_specs'') (\<lambda>v.
     exn_bind (py_iter v) (\<lambda>specs.
     list_comp (kwargs_call InputSpec_init) specs))"

text \<open>
  One element of the comprehension of \<open>_get_output_specs\<close>; the keyword arguments are
  evaluated in the order they are written. \<open>deltafiles\<close> stands for
  \<open>OutputFormat.DELTAFILES.value\<close>, a constant declared outside the source.
\<close>

definition output_spec_of :: "pyval \<Rightarrow> pyval \<Rightarrow> (string, 'e) exn + pyval OutputSpec" where
  "output_spec_of deltafiles spec =
     exn_bind (py_subscript spec ''spec_id'') (\<lambda>a1.
     exn_bind (py_subscript spec ''input_id'') (\<lambda>a2.
     exn_bind (py_get spec ''write_type'' PyNone) (\<lambda>a3.
     exn_bind (py_get spec ''data_format'' deltafiles) (\<lambda>a4.
     exn_bind (py_get spec ''db_table'' PyNone) (\<lambda>a5.
     exn_bind (py_get spec ''location'' PyNone) (\<lambda>a6.
     exn_bind (py_get spec ''partitions'' (PyList [])) (\<lambda>a7.
     Inr \<lparr>OutputSpec.spec_id = a1, input_id = a2, write_type = a3, data_format = a4,
          db_table = a5, location = a6, partitions = a7\<rparr>)))))))"

definition get_output_specs ::
  "pyval \<Rightarrow> (string \<times> pyval) list \<Rightarrow> (string, 'e) exn + pyval OutputSpec list" where
  "get_output_specs deltafiles acn =
     exn_bind (od_getitem acn ''output_specs'') (\<lambda>v.
     exn_bind (py_iter v) (\<lambda>specs.
     list_comp (output_spec_of deltafiles) specs))"

text \<open>\<open>DataLoader.__init__\<close>: the input specifications first, then the output
  specifications.\<close>

definition DataLoader_init ::
  "((string \<times> pyval) list \<Rightarrow> (string, 'e) exn + (pyval, 'x) InputSpec) \<Rightarrow> pyval
    \<Rightarrow> (string \<times> pyval) list \<Rightarrow> (string, 'e) exn + (pyval, 'x) DataLoader" where
  "DataLoader_init InputSpec_init deltafiles acn =
     exn_bind (get_input_specs InputSpec_init acn) (\<lambda>ins.
     exn_bind (get_output_specs deltafiles acn) (\<lambda>outs.
     Inr \<lparr>acon = acn, input_specs = ins, output_specs = outs\<rparr>))"

section \<open>Execution: effects of the read and write stages\<close>

text \<open>
  What the loader does to its surroundings, in the order it does it: the messages it hands
  to the logger, the registry it prints, and its calls of the reader and of the writer
  (\<open>ReaderFactory.get_data(spec)\<close> and
  \<open>WriterFactory.get_writer(spec, df, data).write()\<close>). The message about a
  specification is kept as the specification it formats.
\<close>

datatype ('v, 'x, 'h) event =
    Info string
  | FoundInput "('v, 'x) InputSpec"
  | FoundOutput "'v OutputSpec"
  | GetData "('v, 'x) InputSpec"
  | WriterWrite "'v OutputSpec" 'h "('v \<times> 'h) list"
  | Print "('v \<times> 'h) list"

text \<open>
  The state that execution threads: \<open>world\<close> is everything the reader and the writer
  work on (storage, tables, sessions), and \<open>trace\<close> the events so far, oldest first.
  A dataset handle \<open>'h\<close> is the reference to a dataframe object: the loader stores and
  passes references and never builds or copies a dataframe, so two handles are equal
  exactly when they refer to the same object.
\<close>

record ('w, 'v, 'x, 'h) state =
  world :: 'w
  trace :: "('v, 'x, 'h) event list"

definition emit :: "('v, 'x, 'h) event \<Rightarrow> ('w, 'v, 'x, 'h) state \<Rightarrow> ('w, 'v, 'x, 'h) state" where
  "emit ev st = st\<lparr>trace := trace st @ [ev]\<rparr>"

text \<open>
  The reader and the writer are outside the source and are parameters. Each works on the
  world and either raises or returns: the reader a handle, the writer an optional ordered
  dictionary of handles. The writer is handed the registry to look at, as its interface
  in the spec has it, and does not change it.
\<close>

type_synonym ('w, 'v, 'x, 'h, 'e) reader =
  "('v, 'x) InputSpec \<Rightarrow> 'w \<Rightarrow> ('e + 'h) \<times> 'w"

type_synonym ('w, 'v, 'h, 'e) writer =
  "'v OutputSpec \<Rightarrow> 'h \<Rightarrow> ('v \<times> 'h) list \<Rightarrow> 'w \<Rightarrow> ('e + ('v \<times> 'h) list option) \<times> 'w"

definition get_data :: "('w, 'v, 'x, 'h, 'e) reader \<Rightarrow> ('v, 'x) InputSpec
    \<Rightarrow> ('w, 'v, 'x, 'h) state \<Rightarrow> (('v, 'e) exn + 'h) \<times> ('w, 'v, 'x, 'h) state" where
  "get_data rd spec st =
     (case rd spec (world st) of
        (Inl e, w) \<Rightarrow> (Inl (Raised e), (emit (GetData spec) st)\<lparr>world := w\<rparr>)
      | (Inr df, w) \<Rightarrow> (Inr df, (emit (GetData spec) st)\<lparr>world := w\<rparr>))"

definition writer_write :: "('w, 'v, 'h, 'e) writer \<Rightarrow> 'v OutputSpec \<Rightarrow> 'h \<Rightarrow> ('v \<times> 'h) list
    \<Rightarrow> ('w, 'v, 'x, 'h) state
    \<Rightarrow> (('v, 'e) exn + ('v \<times> 'h) list option) \<times> ('w, 'v, 'x, 'h) state" where
  "writer_write wr spec df data st =
     (case wr spec df data (world st) of
        (Inl e, w) \<Rightarrow> (Inl (Raised e), (emit (WriterWrite spec df data) st)\<lparr>world := w\<rparr>)
      | (Inr out, w) \<Rightarrow> (Inr out, (emit (WriterWrite spec df data) st)\<lparr>world := w\<rparr>))"

subsection \<open>\<open>read\<close>\<close>

fun read_loop :: "('w, 'v, 'x, 'h, 'e) reader \<Rightarrow> ('v, 'x) InputSpec list \<Rightarrow> ('v \<times> 'h) list
    \<Rightarrow> ('w, 'v, 'x, 'h) state \<Rightarrow> (('v, 'e) exn + ('v \<times> 'h) list) \<times> ('w, 'v, 'x, 'h) state" where
  "read_loop rd [] read_dfs st = (Inr read_dfs, st)"
| "read_loop rd (spec # specs) read_dfs st =
     (case get_data rd spec (emit (FoundInput spec) st) of
        (Inl e, st') \<Rightarrow> (Inl e, st')
      | (Inr df, st') \<Rightarrow>
          read_loop rd specs (od_setitem read_dfs (InputSpec.spec_id spec) df) st')"

definition read :: "('v, 'x) DataLoader \<Rightarrow> ('w, 'v, 'x, 'h, 'e) reader
    \<Rightarrow> ('w, 'v, 'x, 'h) state \<Rightarrow> (('v, 'e) exn + ('v \<times> 'h) list) \<times> ('w, 'v, 'x, 'h) state" where
  "read self rd st = read_loop rd (input_specs self) [] st"

subsection \<open>\<open>write\<close>\<close>

text \<open>
  The method \<open>write\<close> is named \<open>write_data\<close> here. One pass of the loop body: the
  registry is subscripted twice, as in the source: for the
  argument of the writer, and again when the writer returned nothing to merge.
\<close>

fun write_loop :: "('w, 'v, 'h, 'e) writer \<Rightarrow> ('v \<times> 'h) list \<Rightarrow> 'v OutputSpec list
    \<Rightarrow> ('v \<times> 'h) list \<Rightarrow> ('w, 'v, 'x, 'h) state
    \<Rightarrow> (('v, 'e) exn + ('v \<times> 'h) list) \<times> ('w, 'v, 'x, 'h) state" where
  "write_loop wr data [] written_dfs st = (Inr written_dfs, st)"
| "write_loop wr data (spec # specs) written_dfs st =
     (case od_getitem data (input_id spec) of
        Inl e \<Rightarrow> (Inl e, emit (FoundOutput spec) st)
      | Inr df \<Rightarrow>
         (case writer_write wr spec df data (emit (FoundOutput spec) st) of
            (Inl e, st') \<Rightarrow> (Inl e, st')
          | (Inr written_output, st') \<Rightarrow>
              if truthy written_output
              then write_loop wr data specs (od_update written_dfs (the written_output)) st'
              else (case od_getitem data (input_id spec) of
                      Inl e \<Rightarrow> (Inl e, st')
                    | Inr df' \<Rightarrow>
                        write_loop wr data specs
                          (od_setitem written_dfs (OutputSpec.spec_id spec) df') st')))"

definition write_data :: "('v, 'x) DataLoader \<Rightarrow> ('w, 'v, 'h, 'e) writer \<Rightarrow> ('v \<times> 'h) list
    \<Rightarrow> ('w, 'v, 'x, 'h) state
    \<Rightarrow> (('v, 'e) exn + ('v \<times> 'h) list) \<times> ('w, 'v, 'x, 'h) state" where
  "write_data self wr data st = write_loop wr data (output_specs self) [] st"

subsection \<open>\<open>execute\<close>\<close>

text \<open>\<open>try: body except Exception as e: handler\<close> and \<open>raise e\<close>.\<close>

definition try_except ::
  "('s \<Rightarrow> ('e + 'a) \<times> 's) \<Rightarrow> ('e \<Rightarrow> 's \<Rightarrow> ('e + 'a) \<times> 's) \<Rightarrow> 's \<Rightarrow> ('e + 'a) \<times> 's" where
  "try_except body handler st =
     (case body st of (Inl e, st') \<Rightarrow> handler e st' | (Inr x, st') \<Rightarrow> (Inr x, st'))"

definition raise :: "'e \<Rightarrow> 's \<Rightarrow> ('e + 'a) \<times> 's" where
  "raise e st = (Inl e, st)"

definition execute_body :: "('v, 'x) DataLoader \<Rightarrow> ('w, 'v, 'x, 'h, 'e) reader
    \<Rightarrow> ('w, 'v, 'h, 'e) writer \<Rightarrow> ('w, 'v, 'x, 'h) state
    \<Rightarrow> (('v, 'e) exn + ('v \<times> 'h) list) \<times> ('w, 'v, 'x, 'h) state" where
  "execute_body self rd wr st =
     (case read self rd (emit (Info ''Starting read stage...'') st) of
        (Inl e, st1) \<Rightarrow> (Inl e, st1)
      | (Inr read_dfs, st1) \<Rightarrow>
         (case write_data self wr read_dfs
                 (emit (Info ''Starting write stage...'') (emit (Print read_dfs) st1)) of
            (Inl e, st2) \<Rightarrow> (Inl e, st2)
          | (Inr written_dfs, st2) \<Rightarrow>
              (Inr written_dfs,
               emit (Info ''Execution of the algorithm has finished!'') st2)))"

definition execute :: "('v, 'x) DataLoader \<Rightarrow> ('w, 'v, 'x, 'h, 'e) reader
    \<Rightarrow> ('w, 'v, 'h, 'e) writer \<Rightarrow> ('w, 'v, 'x, 'h) state
    \<Rightarrow> (('v, 'e) exn + ('v \<times> 'h) list) \<times> ('w, 'v, 'x, 'h) state" where
  "execute self rd wr st = try_except (execute_body self rd wr) raise st"

subsection \<open>Replacing empty results by no result\<close>


section \<open>What the dispatch returns, what is stored, and what is observed\<close>

text \<open>
  The notions the properties below are stated with. None of them is part of the loader;
  each is the plain reading of a phrase of the specification.

  \<open>dispatch_reads\<close>: Reader Dispatch applied to the input specifications in declaration
  order, each call on the world the previous one left. It returns the handles, or the
  first failure.
\<close>

fun dispatch_reads :: "('w, 'v, 'x, 'h, 'e) reader \<Rightarrow> ('v, 'x) InputSpec list \<Rightarrow> 'w
    \<Rightarrow> ('e + 'h list) \<times> 'w" where
  "dispatch_reads rd [] w = (Inr [], w)"
| "dispatch_reads rd (spec # specs) w =
     (case rd spec w of
        (Inl e, w') \<Rightarrow> (Inl e, w')
      | (Inr df, w') \<Rightarrow>
         (case dispatch_reads rd specs w' of
            (Inl e, w'') \<Rightarrow> (Inl e, w'')
          | (Inr dfs, w'') \<Rightarrow> (Inr (df # dfs), w'')))"

text \<open>
  \<open>dispatch_writes\<close>: Writer Dispatch applied to the output specifications in declaration
  order, each with the handle its \<open>input_id\<close> resolves to in the registry. It returns what
  the writer returned for each specification, or the first failure.
\<close>

fun dispatch_writes :: "('w, 'v, 'h, 'e) writer \<Rightarrow> ('v \<times> 'h) list \<Rightarrow> 'v OutputSpec list \<Rightarrow> 'w
    \<Rightarrow> (('v, 'e) exn + ('v \<times> 'h) list option list) \<times> 'w" where
  "dispatch_writes wr data [] w = (Inr [], w)"
| "dispatch_writes wr data (spec # specs) w =
     (case map_of data (input_id spec) of
        None \<Rightarrow> (Inl (KeyError (input_id spec)), w)
      | Some df \<Rightarrow>
         (case wr spec df data w of
            (Inl e, w') \<Rightarrow> (Inl (Raised e), w')
          | (Inr out, w') \<Rightarrow>
             (case dispatch_writes wr data specs w' of
                (Inl e, w'') \<Rightarrow> (Inl e, w'')
              | (Inr outs, w'') \<Rightarrow> (Inr (out # outs), w''))))"

text \<open>
  The items an output specification stores in the written-output registry, given what the
  writer returned for it: the items of a dictionary that is true, and otherwise the single
  item of its own \<open>spec_id\<close> with the resolved handle. \<open>stored\<close> lists the items
  of a sequence of specifications in the order they are stored.
\<close>

definition stored_items :: "('v \<times> 'h) list \<Rightarrow> 'v OutputSpec \<Rightarrow> ('v \<times> 'h) list option
    \<Rightarrow> ('v \<times> 'h) list" where
  "stored_items data spec out =
     (if truthy out then the out
      else [(OutputSpec.spec_id spec, the (map_of data (input_id spec)))])"

fun stored :: "('v \<times> 'h) list \<Rightarrow> 'v OutputSpec list \<Rightarrow> ('v \<times> 'h) list option list
    \<Rightarrow> ('v \<times> 'h) list" where
  "stored data (spec # specs) (out # outs) = stored_items data spec out @ stored data specs outs"
| "stored data [] outs = []"
| "stored data specs [] = []"

text \<open>
  The events of a read stage and of a write stage in which every dispatch returns, and the
  specifications that the reader and the writer were called with according to a trace.
\<close>

fun read_events :: "('v, 'x) InputSpec list \<Rightarrow> ('v, 'x, 'h) event list" where
  "read_events [] = []"
| "read_events (spec # specs) = FoundInput spec # GetData spec # read_events specs"

fun write_events :: "('v \<times> 'h) list \<Rightarrow> 'v OutputSpec list \<Rightarrow> ('v, 'x, 'h) event list" where
  "write_events data [] = []"
| "write_events data (spec # specs) =
     FoundOutput spec # WriterWrite spec (the (map_of data (input_id spec))) data
       # write_events data specs"

fun reader_calls :: "('v, 'x, 'h) event list \<Rightarrow> ('v, 'x) InputSpec list" where
  "reader_calls [] = []"
| "reader_calls (GetData spec # evs) = spec # reader_calls evs"
| "reader_calls (ev # evs) = reader_calls evs"

fun writer_calls :: "('v, 'x, 'h) event list \<Rightarrow> 'v OutputSpec list" where
  "writer_calls [] = []"
| "writer_calls (WriterWrite spec df data # evs) = spec # writer_calls evs"
| "writer_calls (ev # evs) = writer_calls evs"

text \<open>
  Modelled from the spec: a run of the pipeline as the data flow of the spec has it, the
  loader being constructed from the configuration document and then executed. The code
  that constructs a loader and calls \<open>execute\<close> on it is not part of the source. The
  result of a run is the error of the construction, or else what \<open>execute\<close> returned.
\<close>

definition run_loader ::
  "((string \<times> pyval) list \<Rightarrow> (string, 'c) exn + (pyval, 'x) InputSpec) \<Rightarrow> pyval
    \<Rightarrow> ('w, pyval, 'x, 'h, 'e) reader \<Rightarrow> ('w, pyval, 'h, 'e) writer
    \<Rightarrow> (string \<times> pyval) list \<Rightarrow> ('w, pyval, 'x, 'h) state
    \<Rightarrow> ((string, 'c) exn + ((pyval, 'e) exn + (pyval \<times> 'h) list))
      \<times> ('w, pyval, 'x, 'h) state" where
  "run_loader InputSpec_init deltafiles rd wr acn st =
     (case DataLoader_init InputSpec_init deltafiles acn of
        Inl e \<Rightarrow> (Inl e, st)
      | Inr self \<Rightarrow> (case execute self rd wr st of (r, st') \<Rightarrow> (Inr r, st')))"

section \<open>Example configurations\<close>

text \<open>
  A constructor of input specifications that requires \<open>spec_id\<close> and keeps the other
  fields as options; specifications and loaders as the constructor of \<open>DataLoader\<close>
  builds them from a document that gives identifiers only, with \<open>delta\<close> for the
  default format; a reader that counts its calls in the world, fails on the identifiers
  listed and returns the handle \<open>10 + w\<close> otherwise; a writer that returns the answer
  listed for the \<open>spec_id\<close>, and nothing if none is listed.
\<close>

definition ex_InputSpec_init :: "(string \<times> pyval) list
    \<Rightarrow> (string, string) exn + (pyval, (string \<times> pyval) list) InputSpec" where
  "ex_InputSpec_init kw =
     (case map_of kw ''spec_id'' of
        None \<Rightarrow> Inl TypeError
      | Some v \<Rightarrow>
          Inr \<lparr>InputSpec.spec_id = v, options = filter (\<lambda>kv. fst kv \<noteq> ''spec_id'') kw\<rparr>)"

definition ex_in :: "string \<Rightarrow> (pyval, (string \<times> pyval) list) InputSpec" where
  "ex_in sid = \<lparr>InputSpec.spec_id = PyStr sid, options = []\<rparr>"

definition ex_out :: "string \<Rightarrow> string \<Rightarrow> pyval OutputSpec" where
  "ex_out sid iid =
     \<lparr>OutputSpec.spec_id = PyStr sid, input_id = PyStr iid, write_type = PyNone,
      data_format = PyStr ''delta'', db_table = PyNone, location = PyNone,
      partitions = PyList []\<rparr>"

definition ex_acon :: "string list \<Rightarrow> (string \<times> string) list \<Rightarrow> (string \<times> pyval) list" where
  "ex_acon ins outs =
     [(''input_specs'', PyList (map (\<lambda>s. PyDict [(''spec_id'', PyStr s)]) ins)),
      (''output_specs'',
       PyList (map (\<lambda>p. PyDict [(''spec_id'', PyStr (fst p)), (''input_id'', PyStr (snd p))])
         outs))]"

definition ex_loader :: "string list \<Rightarrow> (string \<times> string) list
    \<Rightarrow> (pyval, (string \<times> pyval) list) DataLoader" where
  "ex_loader ins outs =
     \<lparr>acon = ex_acon ins outs, input_specs = map ex_in ins,
      output_specs = map (\<lambda>p. ex_out (fst p) (snd p)) outs\<rparr>"

definition ex_reader :: "pyval list
    \<Rightarrow> (nat, pyval, (string \<times> pyval) list, nat, string) reader" where
  "ex_reader failing spec w =
     (if InputSpec.spec_id spec \<in> set failing then (Inl ''read failed'', w + 1)
      else (Inr (10 + w), w + 1))"

definition ex_writer :: "(pyval \<times> (pyval \<times> nat) list option) list
    \<Rightarrow> (nat, pyval, nat, string) writer" where
  "ex_writer answers spec df data w =
     (case map_of answers (OutputSpec.spec_id spec) of
        None \<Rightarrow> (Inr None, w + 1)
      | Some out \<Rightarrow> (Inr out, w + 1))"

definition ex_state :: "(nat, pyval, (string \<times> pyval) list, nat) state" where
  "ex_state = \<lparr>world = 0, trace = []\<rparr>"

section \<open>Ordered dictionaries\<close>

lemma map_of_od_setitem:
  "map_of (od_setitem d k v) k' = (if k' = k then Some v else map_of d k')"
  by (induction d) auto

lemma keys_od_setitem: "fst ` set (od_setitem d k v) = insert k (fst ` set d)"
  by (induction d) force+

lemma od_setitem_fresh: "k \<notin> fst ` set d \<Longrightarrow> od_setitem d k v = d @ [(k, v)]"
  by (induction d) auto

lemma distinct_od_setitem:
  "distinct (map fst d) \<Longrightarrow> distinct (map fst (od_setitem d k v))"
proof (induction d)
  case Nil
  then show ?case by simp
next
  case (Cons p d)
  have "set (map fst (od_setitem d k v)) = insert k (fst ` set d)"
    using keys_od_setitem [of d k v] by simp
  with Cons show ?case by (cases p) auto
qed

lemma od_update_append: "od_update d (a @ b) = od_update (od_update d a) b"
  by (induction a arbitrary: d) auto

lemma keys_od_update: "fst ` set (od_update d kvs) = fst ` set d \<union> fst ` set kvs"
  by (induction kvs arbitrary: d) (force simp: keys_od_setitem)+

lemma distinct_od_update:
  "distinct (map fst d) \<Longrightarrow> distinct (map fst (od_update d kvs))"
  by (induction kvs arbitrary: d) (auto simp: distinct_od_setitem)

lemma map_of_od_update_notin:
  "k \<notin> fst ` set kvs \<Longrightarrow> map_of (od_update d kvs) k = map_of d k"
  by (induction kvs arbitrary: d) (auto simp: map_of_od_setitem)

lemma map_of_od_update_last:
  "k \<notin> fst ` set b \<Longrightarrow> map_of (od_update d (a @ (k, v) # b)) k = Some v"
  by (simp add: od_update_append map_of_od_update_notin map_of_od_setitem)

lemma od_update_fresh:
  "distinct (map fst kvs) \<Longrightarrow> fst ` set kvs \<inter> fst ` set d = {}
    \<Longrightarrow> od_update d kvs = d @ kvs"
proof (induction kvs arbitrary: d)
  case Nil
  then show ?case by simp
next
  case (Cons p kvs)
  obtain k v where p: "p = (k, v)" by (cases p)
  from Cons.prems p have fresh: "k \<notin> fst ` set d" by auto
  from Cons.prems p have "fst ` set kvs \<inter> fst ` set (d @ [(k, v)]) = {}" by auto
  moreover from Cons.prems have "distinct (map fst kvs)" by simp
  ultimately have "od_update (d @ [(k, v)]) kvs = (d @ [(k, v)]) @ kvs"
    by (rule Cons.IH [rotated])
  with fresh p show ?case by (simp add: od_setitem_fresh)
qed

lemma length_od_update_Nil: "length (od_update [] kvs) = card (fst ` set kvs)"
proof -
  have "distinct (map fst (od_update [] kvs))" by (rule distinct_od_update) simp
  then have "card (set (map fst (od_update [] kvs))) = length (map fst (od_update [] kvs))"
    by (rule distinct_card)
  then show ?thesis using keys_od_update [of "[]" kvs] by simp
qed

section \<open>The loops and the dispatch sequences\<close>

lemma dispatch_reads_length:
  "dispatch_reads rd specs w = (Inr dfs, w') \<Longrightarrow> length dfs = length specs"
  by (induction specs arbitrary: w dfs) (auto split: prod.splits sum.splits)

lemma dispatch_reads_append:
  "dispatch_reads rd (xs @ ys) w =
     (case dispatch_reads rd xs w of
        (Inl e, w') \<Rightarrow> (Inl e, w')
      | (Inr a, w') \<Rightarrow>
         (case dispatch_reads rd ys w' of
            (Inl e, w'') \<Rightarrow> (Inl e, w'')
          | (Inr b, w'') \<Rightarrow> (Inr (a @ b), w'')))"
  by (induction xs arbitrary: w) (auto split: prod.splits sum.splits)

lemma read_loop_ok:
  "dispatch_reads rd specs (world st) = (Inr dfs, w) \<Longrightarrow>
   read_loop rd specs reg st =
     (Inr (od_update reg (zip (map InputSpec.spec_id specs) dfs)),
      st\<lparr>world := w, trace := trace st @ read_events specs\<rparr>)"
proof (induction specs arbitrary: reg st dfs)
  case Nil
  then show ?case by simp
next
  case (Cons spec specs)
  from Cons.prems obtain df w1 dfs' where
    rd: "rd spec (world st) = (Inr df, w1)" and
    rest: "dispatch_reads rd specs w1 = (Inr dfs', w)" and
    dfs: "dfs = df # dfs'"
    by (auto split: prod.splits sum.splits)
  let ?st1 = "(emit (GetData spec) (emit (FoundInput spec) st))\<lparr>world := w1\<rparr>"
  have step: "get_data rd spec (emit (FoundInput spec) st) = (Inr df, ?st1)"
    using rd by (simp add: get_data_def emit_def)
  have "world ?st1 = w1" by simp
  with rest have "dispatch_reads rd specs (world ?st1) = (Inr dfs', w)" by simp
  from Cons.IH [OF this]
  show ?case using step dfs by (simp add: emit_def)
qed

lemma read_loop_append:
  "read_loop rd (xs @ ys) reg st =
     (case read_loop rd xs reg st of
        (Inl e, st') \<Rightarrow> (Inl e, st')
      | (Inr reg', st') \<Rightarrow> read_loop rd ys reg' st')"
  by (induction xs arbitrary: reg st) (auto split: prod.splits sum.splits)

lemma read_loop_fail:
  assumes "dispatch_reads rd pre (world st) = (Inr dfs, w1)"
    and "rd spec w1 = (Inl e, w2)"
  shows "read_loop rd (pre @ spec # post) reg st =
     (Inl (Raised e),
      st\<lparr>world := w2, trace := trace st @ read_events pre @ [FoundInput spec, GetData spec]\<rparr>)"
  using assms
  by (simp add: read_loop_append read_loop_ok get_data_def emit_def)

lemma reader_calls_append: "reader_calls (xs @ ys) = reader_calls xs @ reader_calls ys"
  by (induction xs rule: reader_calls.induct) auto

lemma writer_calls_append: "writer_calls (xs @ ys) = writer_calls xs @ writer_calls ys"
  by (induction xs rule: writer_calls.induct) auto

lemma reader_calls_read_events: "reader_calls (read_events specs) = specs"
  by (induction specs) auto

lemma writer_calls_read_events: "writer_calls (read_events specs) = []"
  by (induction specs) auto

lemma writer_calls_write_events: "writer_calls (write_events data specs) = specs"
  by (induction specs) auto

lemma dispatch_writes_length:
  "dispatch_writes wr data specs w = (Inr outs, w') \<Longrightarrow> length outs = length specs"
  by (induction specs arbitrary: w outs) (auto split: prod.splits sum.splits option.splits)

lemma dispatch_writes_append:
  "dispatch_writes wr data (xs @ ys) w =
     (case dispatch_writes wr data xs w of
        (Inl e, w') \<Rightarrow> (Inl e, w')
      | (Inr a, w') \<Rightarrow>
         (case dispatch_writes wr data ys w' of
            (Inl e, w'') \<Rightarrow> (Inl e, w'')
          | (Inr b, w'') \<Rightarrow> (Inr (a @ b), w'')))"
  by (induction xs arbitrary: w) (auto split: prod.splits sum.splits option.splits)

lemma stored_append:
  "length a = length xs \<Longrightarrow>
   stored data (xs @ ys) (a @ b) = stored data xs a @ stored data ys b"
  by (induction xs arbitrary: a) (auto simp: length_Suc_conv)

lemma write_loop_ok:
  "dispatch_writes wr data specs (world st) = (Inr outs, w) \<Longrightarrow>
   write_loop wr data specs written st =
     (Inr (od_update written (stored data specs outs)),
      st\<lparr>world := w, trace := trace st @ write_events data specs\<rparr>)"
proof (induction specs arbitrary: written st outs)
  case Nil
  then show ?case by simp
next
  case (Cons spec specs)
  from Cons.prems obtain df out w1 outs' where
    df: "map_of data (input_id spec) = Some df" and
    wr: "wr spec df data (world st) = (Inr out, w1)" and
    rest: "dispatch_writes wr data specs w1 = (Inr outs', w)" and
    outs: "outs = out # outs'"
    by (auto split: option.splits prod.splits sum.splits)
  let ?st1 = "(emit (WriterWrite spec df data) (emit (FoundOutput spec) st))\<lparr>world := w1\<rparr>"
  have step: "writer_write wr spec df data (emit (FoundOutput spec) st) = (Inr out, ?st1)"
    using wr by (simp add: writer_write_def emit_def)
  have "world ?st1 = w1" by simp
  with rest have ok: "dispatch_writes wr data specs (world ?st1) = (Inr outs', w)" by simp
  show ?case
  proof (cases "truthy out")
    case True
    then show ?thesis
      using df step outs Cons.IH [OF ok, of "od_update written (the out)"]
      by (simp add: od_getitem_def stored_items_def od_update_append emit_def)
  next
    case False
    then show ?thesis
      using df step outs
        Cons.IH [OF ok, of "od_setitem written (OutputSpec.spec_id spec) df"]
      by (simp add: od_getitem_def stored_items_def od_update_append emit_def)
  qed
qed

lemma write_loop_append:
  "write_loop wr data (xs @ ys) written st =
     (case write_loop wr data xs written st of
        (Inl e, st') \<Rightarrow> (Inl e, st')
      | (Inr written', st') \<Rightarrow> write_loop wr data ys written' st')"
  by (induction xs arbitrary: written st) (auto split: prod.splits sum.splits)

lemma write_loop_missing:
  assumes "dispatch_writes wr data pre (world st) = (Inr outs, w1)"
    and "input_id spec \<notin> fst ` set data"
  shows "write_loop wr data (pre @ spec # post) written st =
     (Inl (KeyError (input_id spec)),
      st\<lparr>world := w1, trace := trace st @ write_events data pre @ [FoundOutput spec]\<rparr>)"
proof -
  from assms(2) have "map_of data (input_id spec) = None"
    by (simp add: map_of_eq_None_iff)
  with assms(1) show ?thesis
    by (simp add: write_loop_append write_loop_ok od_getitem_def emit_def)
qed

lemma write_loop_around:
  assumes pre: "dispatch_writes wr data pre (world st) = (Inr outs1, w1)"
    and df: "map_of data (input_id spec) = Some df"
    and wr: "wr spec df data w1 = (Inr out, w2)"
    and post: "dispatch_writes wr data post w2 = (Inr outs2, w3)"
  shows "fst (write_loop wr data (pre @ spec # post) [] st) =
     Inr (od_update [] (stored data pre outs1 @ stored_items data spec out
        @ stored data post outs2))"
proof -
  have "dispatch_writes wr data (pre @ spec # post) (world st) =
      (Inr (outs1 @ out # outs2), w3)"
    using assms by (simp add: dispatch_writes_append)
  from write_loop_ok [OF this, of "[]"]
  have "fst (write_loop wr data (pre @ spec # post) [] st) =
      Inr (od_update [] (stored data (pre @ spec # post) (outs1 @ out # outs2)))"
    by simp
  moreover have "length outs1 = length pre"
    using pre by (rule dispatch_writes_length)
  ultimately show ?thesis by (simp add: stored_append)
qed


lemma list_comp_nth:
  "list_comp f xs = Inr ys \<Longrightarrow>
   length ys = length xs \<and> (\<forall>i<length xs. f (xs ! i) = Inr (ys ! i))"
proof (induction xs arbitrary: ys)
  case Nil
  then show ?case by simp
next
  case (Cons x xs)
  from Cons.prems obtain y ys' where
    y: "f x = Inr y" and rest: "list_comp f xs = Inr ys'" and ys: "ys = y # ys'"
    by (auto simp: exn_bind_def split: sum.splits)
  from Cons.IH [OF rest] y ys show ?case
    by (auto simp: nth_Cons split: nat.splits)
qed

lemma output_spec_of_dict:
  "output_spec_of dflt (PyDict d) = Inr spec \<Longrightarrow>
   map_of d ''spec_id'' = Some (OutputSpec.spec_id spec)
   \<and> map_of d ''input_id'' = Some (input_id spec)
   \<and> data_format spec = (case map_of d ''data_format'' of None \<Rightarrow> dflt | Some v \<Rightarrow> v)
   \<and> partitions spec = (case map_of d ''partitions'' of None \<Rightarrow> PyList [] | Some v \<Rightarrow> v)"
  by (auto simp: output_spec_of_def exn_bind_def od_getitem_def split: option.splits)

section \<open>Properties of the write stage\<close>

text \<open>
  C1. For every registry and every list of output specifications: when \<open>write\<close> reaches
  a specification whose \<open>input_id\<close> is not a key of the registry (the writer returned
  for every specification declared before it), \<open>write\<close> fails with the lookup error
  of that key, Python's \<open>KeyError\<close>. The writer is not called for that specification:
  the state \<open>write\<close> ends in is the one the earlier specifications left, with only the
  log message about the specification added, and the writer has been called for exactly
  the specifications declared before it, in their order.
\<close>

theorem write_missing_input_id:
  assumes "output_specs self = pre @ spec # post"
    and "dispatch_writes wr data pre (world st) = (Inr outs, w1)"
    and "input_id spec \<notin> fst ` set data"
  shows "write_data self wr data st =
      (Inl (KeyError (input_id spec)),
       st\<lparr>world := w1, trace := trace st @ write_events data pre @ [FoundOutput spec]\<rparr>)
    \<and> writer_calls (trace (snd (write_data self wr data st))) = writer_calls (trace st) @ pre"
  using assms(1) write_loop_missing [OF assms(2,3), of post "[]"]
  by (simp add: write_data_def writer_calls_append writer_calls_write_events)

theorem write_missing_input_id_witness:
  "write_data (ex_loader [''a''] [(''out1'', ''a''), (''out2'', ''missing''), (''out3'', ''a'')])
     (ex_writer []) [(PyStr ''a'', 10)] ex_state =
   (Inl (KeyError (PyStr ''missing'')),
    \<lparr>world = 1,
     trace = [FoundOutput (ex_out ''out1'' ''a''),
       WriterWrite (ex_out ''out1'' ''a'') 10 [(PyStr ''a'', 10)],
       FoundOutput (ex_out ''out2'' ''missing'')]\<rparr>)"
proof -
  have specs:
    "output_specs (ex_loader [''a''] [(''out1'', ''a''), (''out2'', ''missing''), (''out3'', ''a'')])
      = [ex_out ''out1'' ''a''] @ ex_out ''out2'' ''missing'' # [ex_out ''out3'' ''a'']"
    by (simp add: ex_loader_def)
  have reach: "dispatch_writes (ex_writer []) [(PyStr ''a'', 10)] [ex_out ''out1'' ''a'']
      (world ex_state) = (Inr [None], 1)"
    by (simp add: ex_writer_def ex_out_def ex_state_def)
  have missing: "input_id (ex_out ''out2'' ''missing'') \<notin> fst ` set [(PyStr ''a'', 10::nat)]"
    by (simp add: ex_out_def)
  from write_missing_input_id [OF specs reach missing] show ?thesis
    by (simp add: ex_out_def ex_state_def)
qed

text \<open>
  C5, as stated, fails: the entry that a specification without a returned mapping gets
  is overwritten when a specification declared later stores the same key. Here the writer
  returns nothing for \<open>out1\<close>, whose input resolves to the handle 1, and returns the
  mapping with the one key \<open>out1\<close> for \<open>out2\<close>; the registry that \<open>write\<close>
  returns has the handle 7 under \<open>out1\<close>.
\<close>

theorem pass_through_entry_counterexample:
  "fst (ex_writer [(PyStr ''out2'', Some [(PyStr ''out1'', 7)])] (ex_out ''out1'' ''a'') 1
      [(PyStr ''a'', 1), (PyStr ''b'', 2)] 0) = Inr None
   \<and> map_of [(PyStr ''a'', 1), (PyStr ''b'', 2)] (input_id (ex_out ''out1'' ''a''))
      = Some (1::nat)
   \<and> fst (write_data (ex_loader [''a'', ''b''] [(''out1'', ''a''), (''out2'', ''b'')])
        (ex_writer [(PyStr ''out2'', Some [(PyStr ''out1'', 7)])])
        [(PyStr ''a'', 1), (PyStr ''b'', 2)] ex_state)
      = Inr [(PyStr ''out1'', 7)]"
  by (simp add: write_data_def ex_loader_def ex_out_def ex_writer_def ex_state_def
      od_getitem_def writer_write_def emit_def)

text \<open>
  C5, amended. For every output specification for which the writer returns no mapping,
  with \<open>write\<close> returning a registry: the registry has under the \<open>spec_id\<close> of the
  specification the very handle that its \<open>input_id\<close> resolves to in the input
  registry, provided that no specification declared later stores that key (neither in a
  mapping returned for it nor as the entry of its own \<open>spec_id\<close>).
\<close>

theorem pass_through_entry_kept:
  assumes specs: "output_specs self = pre @ spec # post"
    and pre: "dispatch_writes wr data pre (world st) = (Inr outs1, w1)"
    and df: "map_of data (input_id spec) = Some df"
    and wr: "wr spec df data w1 = (Inr None, w2)"
    and post: "dispatch_writes wr data post w2 = (Inr outs2, w3)"
    and later: "OutputSpec.spec_id spec \<notin> fst ` set (stored data post outs2)"
  shows "\<exists>written. fst (write_data self wr data st) = Inr written
    \<and> map_of written (OutputSpec.spec_id spec) = Some df"
proof -
  have "stored_items data spec None = [(OutputSpec.spec_id spec, df)]"
    using df by (simp add: stored_items_def)
  with write_loop_around [OF pre df wr post] specs
  have "fst (write_data self wr data st) =
      Inr (od_update [] (stored data pre outs1
        @ (OutputSpec.spec_id spec, df) # stored data post outs2))"
    by (simp add: write_data_def)
  moreover have "map_of (od_update [] (stored data pre outs1
        @ (OutputSpec.spec_id spec, df) # stored data post outs2)) (OutputSpec.spec_id spec)
      = Some df"
    using later by (rule map_of_od_update_last)
  ultimately show ?thesis by blast
qed

theorem pass_through_entry_kept_witness:
  "\<exists>written.
     fst (write_data (ex_loader [''a''] [(''out0'', ''a''), (''out1'', ''a''), (''out2'', ''a'')])
       (ex_writer []) [(PyStr ''a'', 10)] ex_state) = Inr written
     \<and> map_of written (PyStr ''out1'') = Some 10"
proof -
  have specs:
    "output_specs (ex_loader [''a''] [(''out0'', ''a''), (''out1'', ''a''), (''out2'', ''a'')])
      = [ex_out ''out0'' ''a''] @ ex_out ''out1'' ''a'' # [ex_out ''out2'' ''a'']"
    by (simp add: ex_loader_def)
  have pre: "dispatch_writes (ex_writer []) [(PyStr ''a'', 10)] [ex_out ''out0'' ''a'']
      (world ex_state) = (Inr [None], 1)"
    by (simp add: ex_writer_def ex_out_def ex_state_def)
  have df: "map_of [(PyStr ''a'', 10::nat)] (input_id (ex_out ''out1'' ''a'')) = Some 10"
    by (simp add: ex_out_def)
  have wr: "ex_writer [] (ex_out ''out1'' ''a'') 10 [(PyStr ''a'', 10)] 1 = (Inr None, 2)"
    by (simp add: ex_writer_def)
  have post: "dispatch_writes (ex_writer []) [(PyStr ''a'', 10)] [ex_out ''out2'' ''a''] 2
      = (Inr [None], 3)"
    by (simp add: ex_writer_def ex_out_def)
  have later: "OutputSpec.spec_id (ex_out ''out1'' ''a'')
      \<notin> fst ` set (stored [(PyStr ''a'', 10::nat)] [ex_out ''out2'' ''a''] [None])"
    by (simp add: stored_items_def ex_out_def)
  from pass_through_entry_kept [OF specs pre df wr post later] show ?thesis
    by (simp add: ex_out_def)
qed

text \<open>
  C6, as stated, fails: an entry of a returned mapping is not in the registry that
  \<open>write\<close> returns when a specification declared later stores the same key, and that
  later specification need not return a mapping. Here the writer returns the mapping
  with the one entry of key \<open>k\<close> and handle 7 for \<open>out1\<close> and nothing for the
  specification whose \<open>spec_id\<close> is \<open>k\<close>; the registry returned has under \<open>k\<close>
  the input handle 1 and not 7, although no two returned mappings share a key.
\<close>

theorem merged_entry_counterexample:
  "fst (ex_writer [(PyStr ''out1'', Some [(PyStr ''k'', 7)])] (ex_out ''out1'' ''a'') 1
      [(PyStr ''a'', 1)] 0) = Inr (Some [(PyStr ''k'', 7)])
   \<and> fst (write_data (ex_loader [''a''] [(''out1'', ''a''), (''k'', ''a'')])
        (ex_writer [(PyStr ''out1'', Some [(PyStr ''k'', 7)])]) [(PyStr ''a'', 1)] ex_state)
      = Inr [(PyStr ''k'', 1)]"
  by (simp add: write_data_def ex_loader_def ex_out_def ex_writer_def ex_state_def
      od_getitem_def writer_write_def emit_def)

text \<open>
  C6, amended. For every output specification for which the writer returns a non-empty
  mapping (a dictionary: its keys are distinct), with \<open>write\<close> returning a registry:
  every entry of the mapping is in that registry, provided that no specification declared
  later stores the key of the entry (neither in a mapping returned for it nor as the
  entry of its own \<open>spec_id\<close>). So each key of the registry has the value of the
  last-declared specification that stored it; of two returned mappings that share a key,
  the later one gives the value when no third specification stores the key after it.
\<close>

theorem merged_entry_kept:
  assumes specs: "output_specs self = pre @ spec # post"
    and pre: "dispatch_writes wr data pre (world st) = (Inr outs1, w1)"
    and df: "map_of data (input_id spec) = Some df"
    and wr: "wr spec df data w1 = (Inr (Some m), w2)"
    and nonempty: "m \<noteq> []"
    and dict: "distinct (map fst m)"
    and entry: "(k, v) \<in> set m"
    and post: "dispatch_writes wr data post w2 = (Inr outs2, w3)"
    and later: "k \<notin> fst ` set (stored data post outs2)"
  shows "\<exists>written. fst (write_data self wr data st) = Inr written
    \<and> map_of written k = Some v"
proof -
  from entry obtain a b where m: "m = a @ (k, v) # b"
    by (auto dest: split_list)
  with dict have "k \<notin> fst ` set b" by auto
  with later have fresh: "k \<notin> fst ` set (b @ stored data post outs2)" by auto
  have "truthy (Some m)" using nonempty by (cases m) auto
  then have "stored_items data spec (Some m) = m"
    by (simp add: stored_items_def)
  with write_loop_around [OF pre df wr post] specs m
  have "fst (write_data self wr data st) =
      Inr (od_update [] ((stored data pre outs1 @ a)
        @ (k, v) # (b @ stored data post outs2)))"
    by (simp add: write_data_def)
  moreover have "map_of (od_update [] ((stored data pre outs1 @ a)
        @ (k, v) # (b @ stored data post outs2))) k = Some v"
    using fresh by (rule map_of_od_update_last)
  ultimately show ?thesis by blast
qed

theorem merged_entry_kept_witness:
  "\<exists>written.
     fst (write_data (ex_loader [''a''] [(''out1'', ''a''), (''out2'', ''a''), (''out3'', ''a'')])
       (ex_writer [(PyStr ''out1'', Some [(PyStr ''shared'', 7)]),
          (PyStr ''out2'', Some [(PyStr ''shared'', 8)])])
       [(PyStr ''a'', 10)] ex_state) = Inr written
     \<and> map_of written (PyStr ''shared'') = Some 8"
proof -
  let ?wr = "ex_writer [(PyStr ''out1'', Some [(PyStr ''shared'', 7)]),
      (PyStr ''out2'', Some [(PyStr ''shared'', 8)])]"
  have specs:
    "output_specs (ex_loader [''a''] [(''out1'', ''a''), (''out2'', ''a''), (''out3'', ''a'')])
      = [ex_out ''out1'' ''a''] @ ex_out ''out2'' ''a'' # [ex_out ''out3'' ''a'']"
    by (simp add: ex_loader_def)
  have pre: "dispatch_writes ?wr [(PyStr ''a'', 10)] [ex_out ''out1'' ''a''] (world ex_state)
      = (Inr [Some [(PyStr ''shared'', 7)]], 1)"
    by (simp add: ex_writer_def ex_out_def ex_state_def)
  have df: "map_of [(PyStr ''a'', 10::nat)] (input_id (ex_out ''out2'' ''a'')) = Some 10"
    by (simp add: ex_out_def)
  have wr: "?wr (ex_out ''out2'' ''a'') 10 [(PyStr ''a'', 10)] 1
      = (Inr (Some [(PyStr ''shared'', 8)]), 2)"
    by (simp add: ex_writer_def ex_out_def)
  have nonempty: "[(PyStr ''shared'', 8::nat)] \<noteq> []" by simp
  have dict: "distinct (map fst [(PyStr ''shared'', 8::nat)])" by simp
  have entry: "(PyStr ''shared'', 8) \<in> set [(PyStr ''shared'', 8::nat)]" by simp
  have post: "dispatch_writes ?wr [(PyStr ''a'', 10)] [ex_out ''out3'' ''a''] 2
      = (Inr [None], 3)"
    by (simp add: ex_writer_def ex_out_def)
  have later: "PyStr ''shared''
      \<notin> fst ` set (stored [(PyStr ''a'', 10::nat)] [ex_out ''out3'' ''a''] [None])"
    by (simp add: stored_items_def ex_out_def)
  from merged_entry_kept [OF specs pre df wr nonempty dict entry post later]
  show ?thesis .
qed



section \<open>Properties of the read stage\<close>

text \<open>
  C2. For every list of input specifications with pairwise distinct \<open>spec_id\<close> on
  each of which the reader returns a handle: \<open>read\<close> returns the registry that has
  one entry for each specification, in declaration order, the entry of a specification
  being its \<open>spec_id\<close> with the handle the reader returned for it.
\<close>

theorem read_distinct_spec_ids:
  assumes "distinct (map InputSpec.spec_id (input_specs self))"
    and "dispatch_reads rd (input_specs self) (world st) = (Inr dfs, w)"
  shows "fst (read self rd st) = Inr (zip (map InputSpec.spec_id (input_specs self)) dfs)
    \<and> length dfs = length (input_specs self)"
proof -
  have len: "length dfs = length (input_specs self)"
    using assms(2) by (rule dispatch_reads_length)
  then have keys: "map fst (zip (map InputSpec.spec_id (input_specs self)) dfs)
      = map InputSpec.spec_id (input_specs self)"
    by simp
  have "od_update [] (zip (map InputSpec.spec_id (input_specs self)) dfs)
      = [] @ zip (map InputSpec.spec_id (input_specs self)) dfs"
    by (rule od_update_fresh) (simp_all add: keys assms(1))
  with read_loop_ok [OF assms(2), of "[]"] len show ?thesis
    by (simp add: read_def)
qed

theorem read_distinct_spec_ids_witness:
  "fst (read (ex_loader [''a'', ''b''] []) (ex_reader []) ex_state)
   = Inr [(PyStr ''a'', 10), (PyStr ''b'', 11)]"
proof -
  have ids: "distinct (map InputSpec.spec_id (input_specs (ex_loader [''a'', ''b''] [])))"
    by (simp add: ex_loader_def ex_in_def)
  have reads: "dispatch_reads (ex_reader []) (input_specs (ex_loader [''a'', ''b''] []))
      (world ex_state) = (Inr [10, 11], 2)"
    by (simp add: ex_loader_def ex_in_def ex_reader_def ex_state_def)
  from read_distinct_spec_ids [OF ids reads] show ?thesis
    by (simp add: ex_loader_def ex_in_def)
qed

text \<open>
  C3. For every list of input specifications in which a specification has the
  \<open>spec_id\<close> of one declared before it, and is the last with that \<open>spec_id\<close>, the
  reader returning a handle on each: the registry that \<open>read\<close> returns has under that
  \<open>spec_id\<close> the handle the reader returned for this last specification, and has
  fewer entries than there are input specifications.
\<close>

theorem read_shared_spec_id:
  assumes specs: "input_specs self = pre @ spec # post"
    and earlier: "InputSpec.spec_id spec \<in> InputSpec.spec_id ` set pre"
    and last: "InputSpec.spec_id spec \<notin> InputSpec.spec_id ` set post"
    and pre: "dispatch_reads rd pre (world st) = (Inr dfs1, w1)"
    and rd: "rd spec w1 = (Inr df, w2)"
    and post: "dispatch_reads rd post w2 = (Inr dfs2, w3)"
  shows "\<exists>reg. fst (read self rd st) = Inr reg
    \<and> map_of reg (InputSpec.spec_id spec) = Some df
    \<and> length reg < length (input_specs self)"
proof -
  let ?ids = "map InputSpec.spec_id (pre @ spec # post)"
  let ?dfs = "dfs1 @ df # dfs2"
  let ?reg = "od_update [] (zip ?ids ?dfs)"
  have all: "dispatch_reads rd (pre @ spec # post) (world st) = (Inr ?dfs, w3)"
    using pre rd post by (simp add: dispatch_reads_append)
  have res: "fst (read self rd st) = Inr ?reg"
    using read_loop_ok [OF all, of "[]"] specs by (simp add: read_def)
  have len1: "length dfs1 = length pre" using pre by (rule dispatch_reads_length)
  have len2: "length dfs2 = length post" using post by (rule dispatch_reads_length)
  have zip: "zip ?ids ?dfs = zip (map InputSpec.spec_id pre) dfs1
      @ (InputSpec.spec_id spec, df) # zip (map InputSpec.spec_id post) dfs2"
    using len1 by simp
  have "fst ` set (zip (map InputSpec.spec_id post) dfs2) \<subseteq> InputSpec.spec_id ` set post"
    by (auto dest: set_zip_leftD)
  with last have "InputSpec.spec_id spec \<notin> fst ` set (zip (map InputSpec.spec_id post) dfs2)"
    by blast
  then have val: "map_of ?reg (InputSpec.spec_id spec) = Some df"
    unfolding zip by (rule map_of_od_update_last)
  have "map fst (zip ?ids ?dfs) = ?ids"
    using len1 len2 by simp
  then have "fst ` set (zip ?ids ?dfs) = set ?ids"
    by (metis set_map)
  then have "length ?reg = card (set ?ids)"
    by (simp add: length_od_update_Nil)
  moreover have "\<not> distinct ?ids" using earlier by auto
  then have "card (set ?ids) \<noteq> length ?ids" using card_distinct by blast
  moreover have "card (set ?ids) \<le> length ?ids" by (rule card_length)
  ultimately have "length ?reg < length (input_specs self)"
    using specs by simp
  with res val show ?thesis by blast
qed

theorem read_shared_spec_id_witness:
  "\<exists>reg. fst (read (ex_loader [''a'', ''b'', ''a'', ''c''] []) (ex_reader []) ex_state) = Inr reg
     \<and> map_of reg (PyStr ''a'') = Some 12 \<and> length reg < 4"
proof -
  have specs: "input_specs (ex_loader [''a'', ''b'', ''a'', ''c''] [])
      = [ex_in ''a'', ex_in ''b''] @ ex_in ''a'' # [ex_in ''c'']"
    by (simp add: ex_loader_def)
  have earlier: "InputSpec.spec_id (ex_in ''a'')
      \<in> InputSpec.spec_id ` set [ex_in ''a'', ex_in ''b'']"
    by simp
  have last: "InputSpec.spec_id (ex_in ''a'') \<notin> InputSpec.spec_id ` set [ex_in ''c'']"
    by (simp add: ex_in_def)
  have pre: "dispatch_reads (ex_reader []) [ex_in ''a'', ex_in ''b''] (world ex_state)
      = (Inr [10, 11], 2)"
    by (simp add: ex_reader_def ex_state_def)
  have rd: "ex_reader [] (ex_in ''a'') 2 = (Inr 12, 3)"
    by (simp add: ex_reader_def)
  have post: "dispatch_reads (ex_reader []) [ex_in ''c''] 3 = (Inr [13], 4)"
    by (simp add: ex_reader_def)
  from read_shared_spec_id [OF specs earlier last pre rd post]
  have "\<exists>reg. fst (read (ex_loader [''a'', ''b'', ''a'', ''c''] []) (ex_reader []) ex_state)
        = Inr reg
      \<and> map_of reg (InputSpec.spec_id (ex_in ''a'')) = Some 12
      \<and> length reg < length (input_specs (ex_loader [''a'', ''b'', ''a'', ''c''] []))" .
  moreover have "length (input_specs (ex_loader [''a'', ''b'', ''a'', ''c''] [])) = 4"
    by (simp add: ex_loader_def)
  moreover have "InputSpec.spec_id (ex_in ''a'') = PyStr ''a''"
    by (simp add: ex_in_def)
  ultimately show ?thesis by simp
qed

text \<open>
  C4. For every list of input specifications: when the reader fails on a specification,
  having returned for those declared before it, \<open>read\<close> ends there with the error the
  reader raised and returns no registry; the reader has been called for the specifications
  up to that one and for none declared after it. \<open>execute\<close> ends with the same error,
  in the state \<open>read\<close> left: the message that starts the write stage is not logged and
  the writer is not called.
\<close>

theorem read_failure_aborts:
  assumes "input_specs self = pre @ spec # post"
    and "dispatch_reads rd pre (world st) = (Inr dfs, w1)"
    and "rd spec w1 = (Inl e, w2)"
  shows "read self rd st =
      (Inl (Raised e),
       st\<lparr>world := w2,
          trace := trace st @ read_events pre @ [FoundInput spec, GetData spec]\<rparr>)
    \<and> execute self rd wr st =
      (Inl (Raised e),
       st\<lparr>world := w2,
          trace := trace st @ Info ''Starting read stage...'' # read_events pre
            @ [FoundInput spec, GetData spec]\<rparr>)
    \<and> reader_calls (trace (snd (read self rd st))) = reader_calls (trace st) @ pre @ [spec]
    \<and> writer_calls (trace (snd (execute self rd wr st))) = writer_calls (trace st)"
proof -
  have r1: "read self rd st =
      (Inl (Raised e),
       st\<lparr>world := w2,
          trace := trace st @ read_events pre @ [FoundInput spec, GetData spec]\<rparr>)"
    using assms(1) read_loop_fail [OF assms(2,3), of post "[]"] by (simp add: read_def)
  let ?st0 = "emit (Info ''Starting read stage...'') st"
  have "dispatch_reads rd pre (world ?st0) = (Inr dfs, w1)"
    using assms(2) by (simp add: emit_def)
  from read_loop_fail [OF this assms(3), of post "[]"] assms(1)
  have r2: "execute self rd wr st =
      (Inl (Raised e),
       st\<lparr>world := w2,
          trace := trace st @ Info ''Starting read stage...'' # read_events pre
            @ [FoundInput spec, GetData spec]\<rparr>)"
    by (simp add: execute_def try_except_def raise_def execute_body_def read_def emit_def)
  show ?thesis
    unfolding r1 r2
    by (simp add: reader_calls_append writer_calls_append reader_calls_read_events
        writer_calls_read_events)
qed

theorem read_failure_aborts_witness:
  "read (ex_loader [''a'', ''bad'', ''c''] [(''out1'', ''a'')]) (ex_reader [PyStr ''bad''])
     ex_state =
   (Inl (Raised ''read failed''),
    \<lparr>world = 2,
     trace = [FoundInput (ex_in ''a''), GetData (ex_in ''a''),
       FoundInput (ex_in ''bad''), GetData (ex_in ''bad'')]\<rparr>)
   \<and> fst (execute (ex_loader [''a'', ''bad'', ''c''] [(''out1'', ''a'')])
       (ex_reader [PyStr ''bad'']) (ex_writer []) ex_state) = Inl (Raised ''read failed'')
   \<and> writer_calls (trace (snd (execute (ex_loader [''a'', ''bad'', ''c''] [(''out1'', ''a'')])
       (ex_reader [PyStr ''bad'']) (ex_writer []) ex_state))) = []"
proof -
  have specs: "input_specs (ex_loader [''a'', ''bad'', ''c''] [(''out1'', ''a'')])
      = [ex_in ''a''] @ ex_in ''bad'' # [ex_in ''c'']"
    by (simp add: ex_loader_def)
  have pre: "dispatch_reads (ex_reader [PyStr ''bad'']) [ex_in ''a''] (world ex_state)
      = (Inr [10], 1)"
    by (simp add: ex_reader_def ex_in_def ex_state_def)
  have rd: "ex_reader [PyStr ''bad''] (ex_in ''bad'') 1 = (Inl ''read failed'', 2)"
    by (simp add: ex_reader_def ex_in_def)
  from read_failure_aborts [where wr = "ex_writer []", OF specs pre rd] show ?thesis
    by (simp add: ex_state_def)
qed

section \<open>Properties of \<open>execute\<close>\<close>

text \<open>
  C9. \<open>execute\<close> runs \<open>read\<close> and then \<open>write\<close> on the registry that \<open>read\<close>
  returned, in the state \<open>read\<close> left. If both return, it returns the registry that
  \<open>write\<close> returned. If either raises, it raises the same error, in the state the
  stage left: the handler of \<open>execute\<close> neither wraps, nor replaces, nor drops it.
\<close>

theorem execute_sequence:
  "execute self rd wr st =
     (case read self rd (emit (Info ''Starting read stage...'') st) of
        (Inl e, st1) \<Rightarrow> (Inl e, st1)
      | (Inr read_dfs, st1) \<Rightarrow>
         (case write_data self wr read_dfs
                 (emit (Info ''Starting write stage...'') (emit (Print read_dfs) st1)) of
            (Inl e, st2) \<Rightarrow> (Inl e, st2)
          | (Inr written_dfs, st2) \<Rightarrow>
              (Inr written_dfs,
               emit (Info ''Execution of the algorithm has finished!'') st2)))"
  by (simp add: execute_def try_except_def raise_def execute_body_def
      split: prod.splits sum.splits)

theorem execute_sequence_witness:
  "fst (execute (ex_loader [''a''] [(''out1'', ''a'')]) (ex_reader []) (ex_writer []) ex_state)
   = Inr [(PyStr ''out1'', 10)]"
  using execute_sequence [of "ex_loader [''a''] [(''out1'', ''a'')]" "ex_reader []"
      "ex_writer []" ex_state]
  by (simp add: read_def write_data_def ex_loader_def ex_in_def ex_out_def ex_reader_def
      ex_writer_def ex_state_def get_data_def writer_write_def od_getitem_def emit_def)

section \<open>Properties of the construction\<close>

text \<open>
  C7. For every configuration whose \<open>output_specs\<close> is a list and from which a loader
  is constructed: the loader has one output specification for each entry, built from it;
  for an entry without \<open>data_format\<close> the \<open>data_format\<close> of the specification is
  \<open>OutputFormat.DELTAFILES.value\<close>, and for an entry without \<open>partitions\<close> its
  \<open>partitions\<close> is the empty list.
\<close>

theorem output_spec_defaults:
  assumes init: "DataLoader_init InputSpec_init deltafiles acn = Inr self"
    and coll: "map_of acn ''output_specs'' = Some (PyList entries)"
    and i: "i < length entries"
    and entry: "entries ! i = PyDict d"
  shows "length (output_specs self) = length entries
    \<and> map_of d ''spec_id'' = Some (OutputSpec.spec_id (output_specs self ! i))
    \<and> (map_of d ''data_format'' = None \<longrightarrow> data_format (output_specs self ! i) = deltafiles)
    \<and> (map_of d ''partitions'' = None \<longrightarrow> partitions (output_specs self ! i) = PyList [])"
proof -
  from init obtain ins outs where
    outs: "(get_output_specs deltafiles acn :: (string, 'a) exn + pyval OutputSpec list)
      = Inr outs" and
    self: "self = \<lparr>acon = acn, input_specs = ins, output_specs = outs\<rparr>"
    by (auto simp: DataLoader_init_def exn_bind_def split: sum.splits)
  from outs coll have
    "(list_comp (output_spec_of deltafiles) entries :: (string, 'a) exn + pyval OutputSpec list)
      = Inr outs"
    by (simp add: get_output_specs_def exn_bind_def od_getitem_def)
  from list_comp_nth [OF this] i entry have
    len: "length outs = length entries" and
    spec: "(output_spec_of deltafiles (PyDict d) :: (string, 'a) exn + pyval OutputSpec)
      = Inr (outs ! i)"
    by auto
  from output_spec_of_dict [OF spec] len self show ?thesis by simp
qed

theorem output_spec_defaults_witness:
  "DataLoader_init ex_InputSpec_init (PyStr ''delta'') (ex_acon [''a''] [(''out1'', ''a'')])
     = Inr (ex_loader [''a''] [(''out1'', ''a'')])
   \<and> data_format (output_specs (ex_loader [''a''] [(''out1'', ''a'')]) ! 0) = PyStr ''delta''
   \<and> partitions (output_specs (ex_loader [''a''] [(''out1'', ''a'')]) ! 0) = PyList []"
proof -
  have init: "DataLoader_init ex_InputSpec_init (PyStr ''delta'')
      (ex_acon [''a''] [(''out1'', ''a'')]) = Inr (ex_loader [''a''] [(''out1'', ''a'')])"
    by (simp add: DataLoader_init_def get_input_specs_def get_output_specs_def
        output_spec_of_def exn_bind_def od_getitem_def ex_InputSpec_init_def ex_acon_def
        ex_loader_def ex_in_def ex_out_def)
  have coll: "map_of (ex_acon [''a''] [(''out1'', ''a'')]) ''output_specs''
      = Some (PyList [PyDict [(''spec_id'', PyStr ''out1''), (''input_id'', PyStr ''a'')]])"
    by (simp add: ex_acon_def)
  have i: "0 < length [PyDict [(''spec_id'', PyStr ''out1''), (''input_id'', PyStr ''a'')]]"
    by simp
  have entry: "[PyDict [(''spec_id'', PyStr ''out1''), (''input_id'', PyStr ''a'')]] ! 0
      = PyDict [(''spec_id'', PyStr ''out1''), (''input_id'', PyStr ''a'')]"
    by simp
  from output_spec_defaults [OF init coll i entry] init show ?thesis
    by simp
qed

text \<open>
  C8, as stated, fails for the construction of a loader: the input specifications are
  built first, so a configuration without \<open>output_specs\<close> whose \<open>input_specs\<close>
  has an entry that is no mapping fails with the \<open>TypeError\<close> of that entry, and
  not with the error of the missing collection.
\<close>

theorem missing_collection_counterexample:
  "map_of [(''input_specs'', PyList [PyInt 0])] ''output_specs'' = None
   \<and> DataLoader_init ex_InputSpec_init (PyStr ''delta'') [(''input_specs'', PyList [PyInt 0])]
     = Inl TypeError
   \<and> DataLoader_init ex_InputSpec_init (PyStr ''delta'') [(''input_specs'', PyList [PyInt 0])]
     \<noteq> Inl (KeyError ''output_specs'')"
  by (simp add: DataLoader_init_def get_input_specs_def exn_bind_def od_getitem_def)

text \<open>
  C8, amended. For every configuration without the collection \<open>input_specs\<close>, the
  construction of the input specifications, and with it that of the loader, fails with
  the lookup error of that collection (Python's \<open>KeyError\<close> of the key). For every
  configuration without the collection \<open>output_specs\<close>, the construction of the output
  specifications fails with the lookup error of that collection, and the construction of
  the loader fails with it when the input specifications were constructed, and with the
  error their construction raised otherwise. In each case a run ends with that error in
  the state it started in: the failure comes before any call of the reader or of the
  writer.
\<close>

theorem missing_collection_fails:
  "(map_of acn ''input_specs'' = None \<longrightarrow>
      get_input_specs InputSpec_init acn = Inl (KeyError ''input_specs'')
      \<and> DataLoader_init InputSpec_init deltafiles acn = Inl (KeyError ''input_specs'')
      \<and> run_loader InputSpec_init deltafiles rd wr acn st
          = (Inl (KeyError ''input_specs''), st))
   \<and> (map_of acn ''output_specs'' = None \<longrightarrow>
      get_output_specs deltafiles acn = Inl (KeyError ''output_specs'')
      \<and> DataLoader_init InputSpec_init deltafiles acn
          = (case get_input_specs InputSpec_init acn of
               Inl e \<Rightarrow> Inl e
             | Inr ins \<Rightarrow> Inl (KeyError ''output_specs''))
      \<and> run_loader InputSpec_init deltafiles rd wr acn st
          = (case get_input_specs InputSpec_init acn of
               Inl e \<Rightarrow> Inl e
             | Inr ins \<Rightarrow> Inl (KeyError ''output_specs''), st))"
  by (auto simp: run_loader_def DataLoader_init_def get_input_specs_def get_output_specs_def
      exn_bind_def od_getitem_def split: sum.splits)

theorem missing_collection_fails_witness:
  "run_loader ex_InputSpec_init (PyStr ''delta'') (ex_reader []) (ex_writer [])
     [(''output_specs'', PyList [])] ex_state
     = (Inl (KeyError ''input_specs''), ex_state)
   \<and> DataLoader_init ex_InputSpec_init (PyStr ''delta'')
       [(''input_specs'', PyList [PyDict [(''spec_id'', PyStr ''a'')]])]
     = Inl (KeyError ''output_specs'')
   \<and> run_loader ex_InputSpec_init (PyStr ''delta'') (ex_reader []) (ex_writer [])
       [(''input_specs'', PyList [PyDict [(''spec_id'', PyStr ''a'')]])] ex_state
     = (Inl (KeyError ''output_specs''), ex_state)"
proof -
  have absent_in: "map_of [(''output_specs'', PyList [])] ''input_specs'' = None"
    by simp
  have absent_out:
    "map_of [(''input_specs'', PyList [PyDict [(''spec_id'', PyStr ''a'')]])] ''output_specs''
      = None"
    by simp
  have ins: "get_input_specs ex_InputSpec_init
      [(''input_specs'', PyList [PyDict [(''spec_id'', PyStr ''a'')]])]
      = Inr [ex_in ''a'']"
    by (simp add: get_input_specs_def exn_bind_def od_getitem_def ex_InputSpec_init_def
        ex_in_def)
  from missing_collection_fails [where acn = "[(''output_specs'', PyList [])]"
      and InputSpec_init = ex_InputSpec_init and deltafiles = "PyStr ''delta''"
      and rd = "ex_reader []" and wr = "ex_writer []" and st = ex_state] absent_in
  have one: "run_loader ex_InputSpec_init (PyStr ''delta'') (ex_reader []) (ex_writer [])
     [(''output_specs'', PyList [])] ex_state = (Inl (KeyError ''input_specs''), ex_state)"
    by blast
  from missing_collection_fails
      [where acn = "[(''input_specs'', PyList [PyDict [(''spec_id'', PyStr ''a'')]])]"
      and InputSpec_init = ex_InputSpec_init and deltafiles = "PyStr ''delta''"
      and rd = "ex_reader []" and wr = "ex_writer []" and st = ex_state,
      THEN conjunct2, THEN mp, OF absent_out, THEN conjunct2] ins
  have two: "DataLoader_init ex_InputSpec_init (PyStr ''delta'')
       [(''input_specs'', PyList [PyDict [(''spec_id'', PyStr ''a'')]])]
     = Inl (KeyError ''output_specs'')
   \<and> run_loader ex_InputSpec_init (PyStr ''delta'') (ex_reader []) (ex_writer [])
       [(''input_specs'', PyList [PyDict [(''spec_id'', PyStr ''a'')]])] ex_state
     = (Inl (KeyError ''output_specs''), ex_state)"
    by simp
  from one two show ?thesis by blast
qed

end
